theory Spec2Isabelle
  imports Main
begin

section \<open>JavaScript values and strings\<close>

type_synonym vid = nat
type_synonym cid = nat
type_synonym aref = nat

text \<open>
  The values a property of a view can hold: the primitive values, a reference to a view
  instance, a reference to a view class, and a plain object given by its properties.
  Numbers are restricted to the integers.
\<close>

datatype jsval =
    VUndefined
  | VNull
  | VBool bool
  | VNum int
  | VStr string
  | VView vid
  | VClass cid
  | VObj "(string \<times> jsval) list"

text \<open>The truth value JavaScript gives to a value in a condition.\<close>

fun truthy :: "jsval \<Rightarrow> bool" where
  "truthy VUndefined = False"
| "truthy VNull = False"
| "truthy (VBool b) = b"
| "truthy (VNum n) = (n \<noteq> 0)"
| "truthy (VStr s) = (s \<noteq> [])"
| "truthy (VView v) = True"
| "truthy (VClass c) = True"
| "truthy (VObj kvs) = True"

text \<open>\<open>String.prototype.split\<close> with a separator of one character.\<close>

fun split_on :: "char \<Rightarrow> string \<Rightarrow> string list" where
  "split_on c [] = [[]]"
| "split_on c (x # xs) =
     (if x = c then [] # split_on c xs
      else (case split_on c xs of [] \<Rightarrow> [[x]] | w # ws \<Rightarrow> (x # w) # ws))"

text \<open>The second element of an array, \<open>undefined\<close> when the array is shorter.\<close>

fun second :: "string list \<Rightarrow> string option" where
  "second (a # b # rest) = Some b"
| "second xs = None"

definition is_lower :: "char \<Rightarrow> bool" where
  "is_lower c = (c \<in> set ''abcdefghijklmnopqrstuvwxyz'')"

definition is_upper :: "char \<Rightarrow> bool" where
  "is_upper c = (c \<in> set ''ABCDEFGHIJKLMNOPQRSTUVWXYZ'')"

definition to_lower :: "char \<Rightarrow> char" where
  "to_lower c =
     (case map_of (zip ''ABCDEFGHIJKLMNOPQRSTUVWXYZ'' ''abcdefghijklmnopqrstuvwxyz'') c of
        None \<Rightarrow> c | Some l \<Rightarrow> l)"

text \<open>
  Modelled from the spec: \<open>SC.String.decamelize\<close> and \<open>SC.String.dasherize\<close> of the
  runtime package, which is not part of the sources at hand. The specification speaks of
  a "dasherized class"; the source comments of \<open>_classStringForProperty\<close> give
  \<open>isUrgent\<close> becoming \<open>is-urgent\<close> and \<open>barBaz\<close> becoming \<open>bar-baz\<close>.
  \<open>decamelize\<close> puts an underscore between a lower-case letter and an upper-case letter
  that follows it and lower-cases the result; \<open>dasherize\<close> then turns every space and
  underscore into a dash.
\<close>

fun underscore_humps :: "string \<Rightarrow> string" where
  "underscore_humps (a # b # rest) =
     (if is_lower a \<and> is_upper b then a # CHR ''_'' # underscore_humps (b # rest)
      else a # underscore_humps (b # rest))"
| "underscore_humps xs = xs"

definition decamelize :: "string \<Rightarrow> string" where
  "decamelize str = map to_lower (underscore_humps str)"

definition dasherize :: "string \<Rightarrow> string" where
  "dasherize str =
     map (\<lambda>c. if c = CHR '' '' \<or> c = CHR ''_'' then CHR ''-'' else c) (decamelize str)"

section \<open>The document tree and the render buffer\<close>

text \<open>
  An element of the document: a text, or a node with its tag, id, classes, attributes,
  style and children.
\<close>

datatype html =
    Text string
  | Node (tag: string) (node_id: "string option") (node_classes: "string list")
      (node_attrs: "(string \<times> string) list") (node_style: "(string \<times> string) list")
      (node_kids: "html list")


text \<open>
  Modelled from the spec: the render buffer of the views package
  (\<open>sproutcore-views/system/render_buffer\<close>), which is not part of the sources at hand.
  The specification describes it as an accumulator of HTML that becomes a live element,
  scoped like a stack: \<open>begin\<close> opens a nested buffer whose parent is the current one,
  \<open>end\<close> closes it, hands what it built to the parent and returns the parent
  (the outermost buffer returns itself).
\<close>

record frame =
  b_tag :: string
  b_id :: "string option"
  b_classes :: "string list"
  b_attrs :: "(string \<times> string) list"
  b_style :: "(string \<times> string) list"
  b_content :: "html list"

datatype buffer = Buffer (top: frame) (parentBuffer: "buffer option")

definition new_frame :: "string \<Rightarrow> frame" where
  "new_frame tagName' =
     \<lparr>b_tag = tagName', b_id = None, b_classes = [], b_attrs = [], b_style = [],
      b_content = []\<rparr>"

definition RenderBuffer :: "string \<Rightarrow> buffer" where
  "RenderBuffer tagName' = Buffer (new_frame tagName') None"

definition on_top :: "(frame \<Rightarrow> frame) \<Rightarrow> buffer \<Rightarrow> buffer" where
  "on_top f b = Buffer (f (top b)) (parentBuffer b)"

definition buf_push :: "html \<Rightarrow> buffer \<Rightarrow> buffer" where
  "buf_push h = on_top (\<lambda>f. f\<lparr>b_content := b_content f @ [h]\<rparr>)"

definition buf_addClass :: "string \<Rightarrow> buffer \<Rightarrow> buffer" where
  "buf_addClass c = on_top (\<lambda>f. f\<lparr>b_classes := b_classes f @ [c]\<rparr>)"

definition buf_id :: "string \<Rightarrow> buffer \<Rightarrow> buffer" where
  "buf_id i = on_top (\<lambda>f. f\<lparr>b_id := Some i\<rparr>)"

definition buf_attr :: "string \<Rightarrow> string \<Rightarrow> buffer \<Rightarrow> buffer" where
  "buf_attr k x = on_top (\<lambda>f. f\<lparr>b_attrs := b_attrs f @ [(k, x)]\<rparr>)"

definition buf_style :: "string \<Rightarrow> string \<Rightarrow> buffer \<Rightarrow> buffer" where
  "buf_style k x = on_top (\<lambda>f. f\<lparr>b_style := b_style f @ [(k, x)]\<rparr>)"

definition buf_begin :: "string \<Rightarrow> buffer \<Rightarrow> buffer" where
  "buf_begin tagName' b = Buffer (new_frame tagName') (Some b)"

text \<open>The class names of an attribute value: its parts between spaces.\<close>

definition class_tokens :: "string \<Rightarrow> string list" where
  "class_tokens str = filter (\<lambda>w. w \<noteq> []) (split_on CHR '' '' str)"

text \<open>What a buffer has built, as the element it stands for.\<close>

definition buf_string :: "frame \<Rightarrow> html" where
  "buf_string f =
     Node (b_tag f) (b_id f) (concat (map class_tokens (b_classes f))) (b_attrs f)
       (b_style f) (b_content f)"

fun buf_end :: "buffer \<Rightarrow> buffer" where
  "buf_end (Buffer f None) = Buffer f None"
| "buf_end (Buffer f (Some parent)) = buf_push (buf_string f) parent"

definition buf_element :: "buffer \<Rightarrow> html" where
  "buf_element b = buf_string (top b)"

section \<open>Views and the state of the page\<close>

text \<open>
  A view instance with the properties the view class declares. The three array-valued
  properties hold a reference into the store of arrays, as the JavaScript objects do, so
  that two views (or a view and its class) can share one array. \<open>elementId\<close> holds an id
  given at creation; without one the id is the guid of the view. \<open>element\<close> holds the
  element stored in the view, \<open>template\<close> a template stored in the view; a template is
  represented by the HTML text it returns. \<open>props\<close> holds every other property,
  \<open>undefined\<close> where none was set.
\<close>

record view =
  elementId :: "string option"
  tagName :: string
  ariaRole :: "string option"
  isVisible :: bool
  parentView :: "vid option"
  childViews :: aref
  classNames :: aref
  classNameBindings :: aref
  element :: "html option"
  isDestroyed :: bool
  didRenderChildViews :: bool
  elementNeedsUpdate :: bool
  templateName :: "string option"
  template :: "string option"
  defaultTemplate :: "string option"
  props :: "string \<Rightarrow> jsval"

text \<open>
  An observer installed by \<open>_applyClassNameBindings\<close>: the view it observes, the path it
  was registered on, and the two variables its function closes over, the binding
  \<open>property\<close> and \<open>oldClass\<close>.
\<close>

record observer =
  ob_target :: vid
  ob_path :: string
  ob_property :: string
  ob_oldClass :: jsval

text \<open>The calls of the overridable hooks and of the logger, in the order they happen.\<close>

datatype event =
    DidCreateElement vid
  | WillDestroyElement vid
  | LoggerError vid

text \<open>
  The state of the page: the view instances and the next unused guid, the view classes
  (each given by its prototype), the arrays by reference (child views, class names and
  class-name bindings are kept apart) and the next unused reference, the global registry
  \<open>SC.View.views\<close>, the registered observers, the global templates \<open>SC.TEMPLATES\<close> and
  the hooks called so far.
\<close>

record state =
  views :: "vid \<Rightarrow> view"
  next_view :: vid
  classes :: "cid \<Rightarrow> view"
  childArrays :: "aref \<Rightarrow> jsval list"
  nameArrays :: "aref \<Rightarrow> jsval list"
  bindingArrays :: "aref \<Rightarrow> string list"
  next_array :: aref
  registry :: "string \<rightharpoonup> vid"
  observers :: "observer list"
  templates :: "string \<rightharpoonup> string"
  trace :: "event list"

section \<open>Class-name bindings\<close>

text \<open>
  Modelled from the spec: \<open>SC.get\<close> and \<open>SC.getPath\<close> of the property system, which the
  specification treats as an external collaborator. A path is a list of keys separated by
  dots, read one after the other starting at the view; the walk stops at a value that
  has no properties.
\<close>

fun get_key :: "state \<Rightarrow> jsval \<Rightarrow> string \<Rightarrow> jsval" where
  "get_key s (VView u) k = props (views s u) k"
| "get_key s (VObj kvs) k = (case map_of kvs k of None \<Rightarrow> VUndefined | Some x \<Rightarrow> x)"
| "get_key s x k = VUndefined"

fun walk :: "state \<Rightarrow> jsval \<Rightarrow> string list \<Rightarrow> jsval" where
  "walk s x [] = x"
| "walk s x (k # ks) = (if truthy x then walk s (get_key s x k) ks else x)"

definition getPath :: "state \<Rightarrow> vid \<Rightarrow> string \<Rightarrow> jsval" where
  "getPath s v path = (if path = [] then VView v else walk s (VView v) (split_on CHR ''.'' path))"

text \<open>
  \<open>_classStringForProperty\<close>: the class for one entry of \<open>classNameBindings\<close>, at the
  current value of the bound property.
\<close>

definition classStringForProperty :: "state \<Rightarrow> vid \<Rightarrow> string \<Rightarrow> jsval" where
  "classStringForProperty s v property =
     (let split = split_on CHR '':'' property;
          className = second split;
          property' = (case split of [] \<Rightarrow> [] | p # rest \<Rightarrow> p);
          val = getPath s v property'
      in if val = VBool True then
           (case className of
              Some c \<Rightarrow>
                if c \<noteq> [] then VStr c
                else VStr (dasherize (last (split_on CHR ''.'' property')))
            | None \<Rightarrow> VStr (dasherize (last (split_on CHR ''.'' property'))))
         else if val \<noteq> VBool False \<and> val \<noteq> VUndefined \<and> val \<noteq> VNull then val
         else VNull)"


section \<open>Results of calls\<close>

text \<open>
  A call returns a value, throws, or does not return: \<open>Some (Inr x)\<close> is the value
  \<open>x\<close>, \<open>Some (Inl e)\<close> the exception \<open>e\<close>, and \<open>None\<close> a recursion that was cut
  off. The recursions over the tree of views take the depth they may reach as
  an argument: a tree in which a view is its own descendant makes the JavaScript recurse
  without end.
\<close>

datatype error = TemplateNotFound string | TypeError | AssertionFailed

type_synonym 'a res = "(error + 'a) option"

abbreviation Ok :: "'a \<Rightarrow> 'a res" where
  "Ok x \<equiv> Some (Inr x)"

abbreviation Throw :: "error \<Rightarrow> 'a res" where
  "Throw e \<equiv> Some (Inl e)"

definition and_then :: "'a res \<Rightarrow> ('a \<Rightarrow> 'b res) \<Rightarrow> 'b res" where
  "and_then m f = (case m of None \<Rightarrow> None | Some (Inl e) \<Rightarrow> Some (Inl e) | Some (Inr x) \<Rightarrow> f x)"

section \<open>Walking the child views\<close>

text \<open>An element of an array by index, \<open>undefined\<close> out of range.\<close>

definition item_at :: "jsval list \<Rightarrow> nat \<Rightarrow> jsval" where
  "item_at xs i = (if i < length xs then xs ! i else VUndefined)"

text \<open>
  The loop of \<open>forEachChildView\<close>: \<open>for(idx = 0; idx < len; idx++)\<close>, reading the
  array as it is at each step. \<open>rd\<close> reads the array from the state, \<open>k\<close> counts the
  steps that are left.
\<close>

fun for_each_from ::
  "('s \<Rightarrow> jsval list) \<Rightarrow> (jsval \<Rightarrow> 's \<Rightarrow> 's res) \<Rightarrow> nat \<Rightarrow> nat \<Rightarrow> 's \<Rightarrow> 's res" where
  "for_each_from rd cb idx 0 s = Ok s"
| "for_each_from rd cb idx (Suc k) s =
     and_then (cb (item_at (rd s) idx) s) (for_each_from rd cb (Suc idx) k)"

text \<open>
  \<open>forEachChildView\<close>: the array and its length are read once, before the loop. \<open>st\<close>
  gives the state of the page inside the state the callback works on.
\<close>

definition forEachChildView ::
  "('s \<Rightarrow> state) \<Rightarrow> vid \<Rightarrow> (jsval \<Rightarrow> 's \<Rightarrow> 's res) \<Rightarrow> 's \<Rightarrow> 's res" where
  "forEachChildView st v callback s =
     (let childViews' = childViews (views (st s) v);
          len = length (childArrays (st s) childViews')
      in for_each_from (\<lambda>s'. childArrays (st s') childViews') callback 0 len s)"

text \<open>The loop of \<open>mutateChildViews\<close>: \<open>while(--idx >= 0)\<close>, from the last index down.\<close>

fun mutate_from ::
  "('s \<Rightarrow> jsval list) \<Rightarrow> (jsval \<Rightarrow> 's \<Rightarrow> 's res) \<Rightarrow> nat \<Rightarrow> 's \<Rightarrow> 's res" where
  "mutate_from rd cb 0 s = Ok s"
| "mutate_from rd cb (Suc idx) s =
     and_then (cb (item_at (rd s) idx) s) (mutate_from rd cb idx)"

definition mutateChildViews ::
  "vid \<Rightarrow> (jsval \<Rightarrow> state \<Rightarrow> state res) \<Rightarrow> state \<Rightarrow> state res" where
  "mutateChildViews v callback s =
     (let childViews' = childViews (views s v);
          idx = length (childArrays s childViews')
      in mutate_from (\<lambda>s'. childArrays s' childViews') callback idx s)"

section \<open>Templates and rendering\<close>

text \<open>
  The computed property \<open>template\<close>: a template stored in the view, or the one found
  under \<open>templateName\<close> in the global templates, or the default template. A name that
  is given and not found throws.
\<close>

definition get_template :: "state \<Rightarrow> vid \<Rightarrow> error + string option" where
  "get_template s v =
     (case template (views s v) of
        Some value \<Rightarrow> Inr (Some value)
      | None \<Rightarrow>
          (let templateName' = templateName (views s v);
               template' = (case templateName' of None \<Rightarrow> None | Some name \<Rightarrow> templates s name)
           in if template' = None \<and> templateName' \<noteq> None \<and> templateName' \<noteq> Some []
              then Inl (TemplateNotFound (case templateName' of None \<Rightarrow> [] | Some name \<Rightarrow> name))
              else (case template' of
                      Some t \<Rightarrow> Inr (Some t)
                    | None \<Rightarrow> Inr (defaultTemplate (views s v)))))"

definition upd_view :: "vid \<Rightarrow> (view \<Rightarrow> view) \<Rightarrow> state \<Rightarrow> state" where
  "upd_view v f s = s\<lparr>views := (views s)(v := f (views s v))\<rparr>"

text \<open>\<open>render\<close>: pushes what the template returns, and nothing without a template.\<close>

definition render :: "vid \<Rightarrow> state \<times> buffer \<Rightarrow> (state \<times> buffer) res" where
  "render v sb =
     (case get_template (fst sb) v of
        Inl e \<Rightarrow> Throw e
      | Inr None \<Rightarrow> Ok sb
      | Inr (Some output) \<Rightarrow>
          Ok (upd_view v (\<lambda>w. w\<lparr>didRenderChildViews := True\<rparr>) (fst sb),
              buf_push (Text output) (snd sb)))"


text \<open>The decimal digits of a number, and the guid of a view.\<close>

fun digits :: "nat \<Rightarrow> string" where
  "digits n =
     (if n < 10 then [''0123456789'' ! n]
      else digits (n div 10) @ [''0123456789'' ! (n mod 10)])"

declare digits.simps [simp del]

definition guidFor :: "vid \<Rightarrow> string" where
  "guidFor v = ''sc'' @ digits v"

text \<open>The computed property \<open>elementId\<close>: the id given to the view, or else its guid.\<close>

definition get_elementId :: "state \<Rightarrow> vid \<Rightarrow> string" where
  "get_elementId s v = (case elementId (views s v) of Some value \<Rightarrow> value | None \<Rightarrow> guidFor v)"

text \<open>The text of a value, as \<open>Array.prototype.join\<close> writes it.\<close>

fun js_to_string :: "jsval \<Rightarrow> string" where
  "js_to_string VUndefined = []"
| "js_to_string VNull = []"
| "js_to_string (VBool b) = (if b then ''true'' else ''false'')"
| "js_to_string (VNum n) = (if n < 0 then ''-'' @ digits (nat (- n)) else digits (nat n))"
| "js_to_string (VStr str) = str"
| "js_to_string (VView v) = ''<SC.View:'' @ guidFor v @ ''>''"
| "js_to_string (VClass c) = ''SC.View''"
| "js_to_string (VObj kvs) = ''[object Object]''"

fun join :: "string \<Rightarrow> string list \<Rightarrow> string" where
  "join sep [] = []"
| "join sep [x] = x"
| "join sep (x # y # rest) = x @ sep @ join sep (y # rest)"

text \<open>
  Modelled from the spec: \<open>SC.addObserver\<close> of the property system, an external
  collaborator of the view. It registers a function on a path of an object; the
  registered functions are kept in the order they were added.
\<close>

definition addObserver :: "observer \<Rightarrow> state \<Rightarrow> state" where
  "addObserver ob s = s\<lparr>observers := observers s @ [ob]\<rparr>"

text \<open>
  The body of the loop of \<open>_applyClassNameBindings\<close> for one binding: the observer is
  registered on the binding as it is written, then the class of the current value is
  pushed onto \<open>classNames\<close> and remembered in the variable \<open>oldClass\<close> of the observer.
\<close>

definition apply_binding :: "vid \<Rightarrow> aref \<Rightarrow> string \<Rightarrow> state \<Rightarrow> state" where
  "apply_binding v classNames' property s =
     (let ob = \<lparr>ob_target = v, ob_path = property, ob_property = property,
                ob_oldClass = VUndefined\<rparr>;
          s1 = addObserver ob s;
          dasherizedClass = classStringForProperty s1 v property
      in if truthy dasherizedClass
         then s\<lparr>nameArrays := (nameArrays s)(classNames' := nameArrays s classNames' @ [dasherizedClass]),
                observers := observers s @ [ob\<lparr>ob_oldClass := dasherizedClass\<rparr>]\<rparr>
         else s1)"

definition applyClassNameBindings :: "vid \<Rightarrow> state \<Rightarrow> state" where
  "applyClassNameBindings v s =
     (let classBindings = bindingArrays s (classNameBindings (views s v));
          classNames' = classNames (views s v)
      in fold (apply_binding v classNames') classBindings s)"

definition applyAttributesToBuffer :: "vid \<Rightarrow> state \<times> buffer \<Rightarrow> state \<times> buffer" where
  "applyAttributesToBuffer v sb =
     (let s1 = applyClassNameBindings v (fst sb);
          b1 = buf_addClass (join '' '' (map js_to_string (nameArrays s1 (classNames (views s1 v))))) (snd sb);
          b2 = buf_id (get_elementId s1 v) b1;
          b3 = (case ariaRole (views s1 v) of
                  None \<Rightarrow> b2
                | Some role \<Rightarrow> if role \<noteq> [] then buf_attr ''role'' role b2 else b2);
          b4 = (if \<not> isVisible (views s1 v) then buf_style ''display'' ''none'' b3 else b3)
      in (s1, b4))"

text \<open>
  \<open>renderChildViews\<close>, with the method \<open>renderToBuffer\<close> of the child views as an
  argument. A child that is not a view has no \<open>renderToBuffer\<close>: the call throws.
\<close>

definition renderChildViews_with ::
  "(vid \<Rightarrow> state \<times> buffer \<Rightarrow> (state \<times> buffer) res) \<Rightarrow> vid \<Rightarrow> state \<times> buffer
     \<Rightarrow> (state \<times> buffer) res" where
  "renderChildViews_with renderToBuffer' v sb =
     and_then
       (forEachChildView fst v
          (\<lambda>item sb1. case item of
               VView view \<Rightarrow>
                 and_then
                   (renderToBuffer' view
                      (fst sb1, buf_begin (tagName (views (fst sb1) view)) (snd sb1)))
                   (\<lambda>sb2. Ok (fst sb2, buf_end (snd sb2)))
             | _ \<Rightarrow> Throw TypeError)
          sb)
       (\<lambda>sb4. Ok (upd_view v (\<lambda>w. w\<lparr>didRenderChildViews := True\<rparr>) (fst sb4), snd sb4))"

text \<open>\<open>renderToBuffer\<close>; the first argument bounds the depth of the recursion.\<close>

fun renderToBuffer :: "nat \<Rightarrow> vid \<Rightarrow> state \<times> buffer \<Rightarrow> (state \<times> buffer) res" where
  "renderToBuffer 0 v sb = None"
| "renderToBuffer (Suc n) v sb =
     (let s1 = upd_view v (\<lambda>w. w\<lparr>elementNeedsUpdate := False\<rparr>) (fst sb)
      in and_then (render v (applyAttributesToBuffer v (s1, snd sb))) (\<lambda>sb2.
         and_then (if \<not> didRenderChildViews (views (fst sb2) v)
                   then renderChildViews_with (renderToBuffer n) v sb2 else Ok sb2) (\<lambda>sb3.
         Ok (upd_view v (\<lambda>w. w\<lparr>didRenderChildViews := False\<rparr>) (fst sb3), snd sb3))))"


section \<open>The element of a view\<close>

text \<open>The children of an element; a text has none.\<close>

fun children_of :: "html \<Rightarrow> html list" where
  "children_of (Text t) = []"
| "children_of (Node tg i cs as st ks) = ks"

fun map_children :: "(html list \<Rightarrow> html list) \<Rightarrow> html \<Rightarrow> html" where
  "map_children g (Text t) = Text t"
| "map_children g (Node tg i cs as st ks) = Node tg i cs as st (g ks)"

text \<open>The first element with a given id among some elements and their descendants.\<close>

fun find_in :: "string \<Rightarrow> html list \<Rightarrow> html option" where
  "find_in i [] = None"
| "find_in i (Text t # hs) = find_in i hs"
| "find_in i (Node tg nid cs as st ks # hs) =
     (if nid = Some i then Some (Node tg nid cs as st ks)
      else (case find_in i ks of Some h \<Rightarrow> Some h | None \<Rightarrow> find_in i hs))"

text \<open>
  Replaces the first element with a given id by the elements \<open>f\<close> makes of it (none
  to take it out of the tree).
\<close>

fun modify_in :: "string \<Rightarrow> (html \<Rightarrow> html list) \<Rightarrow> html list \<Rightarrow> html list" where
  "modify_in i f [] = []"
| "modify_in i f (Text t # hs) = Text t # modify_in i f hs"
| "modify_in i f (Node tg nid cs as st ks # hs) =
     (if nid = Some i then f (Node tg nid cs as st ks) @ hs
      else if find_in i ks \<noteq> None then Node tg nid cs as st (modify_in i f ks) # hs
      else Node tg nid cs as st ks # modify_in i f hs)"

text \<open>
  \<open>findElementInParentElement\<close>: the element with the id of the view inside the
  element of the parent. Elements are looked up in the trees that the views hold; a
  document to which they are appended is not part of the state.
\<close>

definition findElementInParentElement :: "state \<Rightarrow> vid \<Rightarrow> html \<Rightarrow> html option" where
  "findElementInParentElement s v parentElem = find_in (get_elementId s v) (children_of parentElem)"

text \<open>
  The computed property \<open>element\<close>: the element stored in the view, or else the one found
  inside the element of the parent view. The value the property system caches is
  represented by what it is computed from; the first argument bounds the walk up the
  parent views.
\<close>

fun get_element :: "nat \<Rightarrow> state \<Rightarrow> vid \<Rightarrow> html option res" where
  "get_element 0 s v = None"
| "get_element (Suc m) s v =
     (case element (views s v) of
        Some value \<Rightarrow> Ok (Some value)
      | None \<Rightarrow>
          (case parentView (views s v) of
             None \<Rightarrow> Ok None
           | Some parent \<Rightarrow>
               and_then (get_element m s parent) (\<lambda>parent'.
                 case parent' of
                   None \<Rightarrow> Ok None
                 | Some parentElem \<Rightarrow> Ok (findElementInParentElement s v parentElem))))"


text \<open>
  A change made by jQuery to the element of a view: \<open>f\<close> is applied to the element where
  it lives, in the tree stored in the view or in the tree of an ancestor. Nothing
  happens when the view has no element. An element that is the root of its tree has no
  parent to be taken out of.
\<close>

fun update_element :: "nat \<Rightarrow> vid \<Rightarrow> (html \<Rightarrow> html list) \<Rightarrow> state \<Rightarrow> state res" where
  "update_element 0 v f s = None"
| "update_element (Suc m) v f s =
     (case element (views s v) of
        Some value \<Rightarrow>
          Ok (case f value of
                [value'] \<Rightarrow> upd_view v (\<lambda>w. w\<lparr>element := Some value'\<rparr>) s
              | _ \<Rightarrow> s)
      | None \<Rightarrow>
          (case parentView (views s v) of
             None \<Rightarrow> Ok s
           | Some parent \<Rightarrow>
               update_element m parent
                 (\<lambda>parentElem. [map_children (modify_in (get_elementId s v) f) parentElem]) s))"

text \<open>\<open>SC.$(elem).remove()\<close>.\<close>

definition jq_remove :: "nat \<Rightarrow> vid \<Rightarrow> state \<Rightarrow> state res" where
  "jq_remove m v s = update_element m v (\<lambda>elem. []) s"

text \<open>
  \<open>addClass\<close> and \<open>removeClass\<close> of jQuery on one element; a value that is not a string
  leaves the element as it is.
\<close>

fun jq_addClass :: "jsval \<Rightarrow> html \<Rightarrow> html" where
  "jq_addClass (VStr c) (Node tg i cs as st ks) =
     Node tg i (cs @ filter (\<lambda>w. w \<notin> set cs) (remdups (class_tokens c))) as st ks"
| "jq_addClass x h = h"

fun jq_removeClass :: "jsval \<Rightarrow> html \<Rightarrow> html" where
  "jq_removeClass (VStr c) (Node tg i cs as st ks) =
     Node tg i (filter (\<lambda>w. w \<notin> set (class_tokens c)) cs) as st ks"
| "jq_removeClass x h = h"

section \<open>Lifecycle of the element\<close>

text \<open>
  The hooks \<open>didCreateElement\<close> and \<open>willDestroyElement\<close> do nothing unless a view
  overrides them; their calls are recorded in the trace.
\<close>

definition didCreateElement :: "vid \<Rightarrow> state \<Rightarrow> state" where
  "didCreateElement v s = s\<lparr>trace := trace s @ [DidCreateElement v]\<rparr>"

definition willDestroyElement :: "vid \<Rightarrow> state \<Rightarrow> state" where
  "willDestroyElement v s = s\<lparr>trace := trace s @ [WillDestroyElement v]\<rparr>"

fun notifyDidCreateElement :: "nat \<Rightarrow> vid \<Rightarrow> state \<Rightarrow> state res" where
  "notifyDidCreateElement 0 v s = None"
| "notifyDidCreateElement (Suc n) v s =
     forEachChildView (\<lambda>s'. s') v
       (\<lambda>item s1. case item of
            VView view \<Rightarrow> notifyDidCreateElement n view s1
          | _ \<Rightarrow> Throw TypeError)
       (didCreateElement v s)"

fun notifyWillDestroyElement :: "nat \<Rightarrow> vid \<Rightarrow> state \<Rightarrow> state res" where
  "notifyWillDestroyElement 0 v s = None"
| "notifyWillDestroyElement (Suc n) v s =
     forEachChildView (\<lambda>s'. s') v
       (\<lambda>item s1. case item of
            VView view \<Rightarrow> notifyWillDestroyElement n view s1
          | _ \<Rightarrow> Throw TypeError)
       (willDestroyElement v s)"

text \<open>
  \<open>_sccv_elementDidChange\<close>, the observer of \<open>element\<close>: \<open>SC.propertyDidChange\<close> on the
  \<open>element\<close> of a child drops the value the child holds and calls the same observer of
  the child.
\<close>

fun sccv_elementDidChange :: "nat \<Rightarrow> vid \<Rightarrow> state \<Rightarrow> state res" where
  "sccv_elementDidChange 0 v s = None"
| "sccv_elementDidChange (Suc n) v s =
     forEachChildView (\<lambda>s'. s') v
       (\<lambda>item s1. case item of
            VView view \<Rightarrow>
              sccv_elementDidChange n view (upd_view view (\<lambda>w. w\<lparr>element := None\<rparr>) s1)
          | _ \<Rightarrow> Throw TypeError)
       s"

text \<open>\<open>set(this, 'element', value)\<close>: stores the value and notifies the observer.\<close>

definition set_element :: "nat \<Rightarrow> vid \<Rightarrow> html option \<Rightarrow> state \<Rightarrow> state res" where
  "set_element n v value s =
     sccv_elementDidChange n v (upd_view v (\<lambda>w. w\<lparr>element := value\<rparr>) s)"

definition renderBuffer :: "string \<Rightarrow> buffer" where
  "renderBuffer tagName' = RenderBuffer tagName'"

definition createElement :: "nat \<Rightarrow> nat \<Rightarrow> vid \<Rightarrow> state \<Rightarrow> state res" where
  "createElement m n v s =
     and_then (get_element m s v) (\<lambda>elem.
       if elem \<noteq> None then Ok s
       else
         (let buffer = renderBuffer (tagName (views s v))
          in and_then (renderToBuffer n v (s, buffer)) (\<lambda>sb.
             and_then (set_element n v (Some (buf_element (snd sb))) (fst sb)) (\<lambda>s2.
             notifyDidCreateElement n v s2))))"

definition destroyElement :: "nat \<Rightarrow> nat \<Rightarrow> vid \<Rightarrow> state \<Rightarrow> state res" where
  "destroyElement m n v s =
     and_then (get_element m s v) (\<lambda>elem.
       if elem \<noteq> None then
         and_then (notifyWillDestroyElement n v s) (\<lambda>s1.
         and_then (jq_remove m v s1) (\<lambda>s2.
         set_element n v None s2))
       else Ok s)"


section \<open>Observers of bound properties\<close>

text \<open>
  Modelled from the spec: \<open>SC.set\<close> and the notification of observers by the property
  system, an external collaborator of the view. Setting a key of a view calls the
  observers registered on that view whose path starts with the key.
\<close>

definition observer_fires :: "observer \<Rightarrow> vid \<Rightarrow> string \<Rightarrow> bool" where
  "observer_fires ob v key =
     (ob_target ob = v \<and>
      (case split_on CHR ''.'' (ob_path ob) of [] \<Rightarrow> False | k # rest \<Rightarrow> k = key))"

text \<open>
  The observer function of \<open>_applyClassNameBindings\<close>; it returns the observer with the
  new value of its variable \<open>oldClass\<close>.
\<close>

definition run_observer :: "nat \<Rightarrow> observer \<Rightarrow> state \<Rightarrow> (observer \<times> state) res" where
  "run_observer m ob s =
     (let newClass = classStringForProperty s (ob_target ob) (ob_property ob);
          oldClass = ob_oldClass ob
      in and_then
           (update_element m (ob_target ob)
              (\<lambda>elem.
                 [let elem1 = (if truthy oldClass then jq_removeClass oldClass elem else elem)
                  in if truthy newClass then jq_addClass newClass elem1 else elem1])
              s)
           (\<lambda>s1. Ok (ob\<lparr>ob_oldClass := (if truthy newClass then newClass else VNull)\<rparr>, s1)))"

fun notify_from ::
  "nat \<Rightarrow> vid \<Rightarrow> string \<Rightarrow> observer list \<Rightarrow> state \<Rightarrow> (observer list \<times> state) res" where
  "notify_from m v key [] s = Ok ([], s)"
| "notify_from m v key (ob # obs) s =
     (if observer_fires ob v key
      then and_then (run_observer m ob s) (\<lambda>r1.
           and_then (notify_from m v key obs (snd r1)) (\<lambda>r2.
           Ok (fst r1 # fst r2, snd r2)))
      else and_then (notify_from m v key obs s) (\<lambda>r2. Ok (ob # fst r2, snd r2)))"

definition notifyObservers :: "nat \<Rightarrow> vid \<Rightarrow> string \<Rightarrow> state \<Rightarrow> state res" where
  "notifyObservers m v key s =
     and_then (notify_from m v key (observers s) s) (\<lambda>r. Ok ((snd r)\<lparr>observers := fst r\<rparr>))"

definition set_property :: "nat \<Rightarrow> vid \<Rightarrow> string \<Rightarrow> jsval \<Rightarrow> state \<Rightarrow> state res" where
  "set_property m v key value s =
     notifyObservers m v key (upd_view v (\<lambda>w. w\<lparr>props := (props w)(key := value)\<rparr>) s)"

section \<open>Removing and destroying views\<close>

text \<open>
  \<open>set(view, 'parentView', value)\<close>: \<open>element\<close> depends on \<open>parentView\<close>, so the element
  the view holds is dropped and the observer of \<open>element\<close> is notified.
\<close>

definition set_parentView :: "nat \<Rightarrow> vid \<Rightarrow> vid option \<Rightarrow> state \<Rightarrow> state res" where
  "set_parentView n v value s =
     sccv_elementDidChange n v (upd_view v (\<lambda>w. w\<lparr>parentView := value, element := None\<rparr>) s)"

definition removeChild :: "nat \<Rightarrow> vid \<Rightarrow> vid \<Rightarrow> state \<Rightarrow> state res" where
  "removeChild n v view s =
     and_then (set_parentView n view None s) (\<lambda>s1.
       let childViews' = childViews (views s1 v)
       in Ok (s1\<lparr>childArrays := (childArrays s1)
                 (childViews' := filter (\<lambda>x. x \<noteq> VView view) (childArrays s1 childViews'))\<rparr>))"

definition removeFromParent :: "nat \<Rightarrow> nat \<Rightarrow> vid \<Rightarrow> state \<Rightarrow> state res" where
  "removeFromParent m n v s =
     (let parent = parentView (views s v)
      in and_then (destroyElement m n v s) (\<lambda>s1.
           case parent of
             Some parent' \<Rightarrow> removeChild n parent' v s1
           | None \<Rightarrow> Ok s1))"

text \<open>
  Modelled from the spec: \<open>destroy\<close> of \<open>SC.Object\<close>, reached by \<open>this._super()\<close>; the
  source comment says that it sets \<open>isDestroyed\<close>.
\<close>

definition super_destroy :: "vid \<Rightarrow> state \<Rightarrow> state" where
  "super_destroy v s = upd_view v (\<lambda>w. w\<lparr>isDestroyed := True\<rparr>) s"

fun destroy :: "nat \<Rightarrow> nat \<Rightarrow> vid \<Rightarrow> state \<Rightarrow> state res" where
  "destroy m 0 v s = None"
| "destroy m (Suc n) v s =
     (if isDestroyed (views s v) then Ok s
      else
        and_then (destroyElement m (Suc n) v s) (\<lambda>s1.
        and_then (mutateChildViews v
                    (\<lambda>item s'. case item of
                         VView view \<Rightarrow> destroy m n view s'
                       | _ \<Rightarrow> Throw TypeError)
                    s1) (\<lambda>s2.
        let s3 = s2\<lparr>registry := (registry s2)(get_elementId s2 v := None)\<rparr>
        in and_then (if parentView (views s3 v) \<noteq> None
                     then removeFromParent m (Suc n) v s3 else Ok s3) (\<lambda>s4.
           Ok (super_destroy v s4)))))"


section \<open>Setting up a view\<close>

text \<open>
  \<open>array.slice()\<close>: a new array with the same elements. The three copies that \<open>init\<close>
  makes take the next three unused references.
\<close>

definition slice_arrays :: "vid \<Rightarrow> state \<Rightarrow> state" where
  "slice_arrays v s =
     (let a = next_array s; w = views s v
      in s\<lparr>childArrays := (childArrays s)(a := childArrays s (childViews w)),
           bindingArrays := (bindingArrays s)(Suc a := bindingArrays s (classNameBindings w)),
           nameArrays := (nameArrays s)(Suc (Suc a) := nameArrays s (classNames w)),
           next_array := Suc (Suc (Suc a)),
           views := (views s)
             (v := w\<lparr>childViews := a, classNameBindings := Suc a, classNames := Suc (Suc a)\<rparr>)\<rparr>)"

text \<open>\<open>SC.View.views[get(this, 'elementId')] = this\<close>.\<close>

definition register_view :: "vid \<Rightarrow> state \<Rightarrow> state" where
  "register_view v s = s\<lparr>registry := (registry s)(get_elementId s v \<mapsto> v)\<rparr>"

text \<open>\<open>array[idx] = x\<close>; beyond the end the array grows.\<close>

definition array_set :: "jsval list \<Rightarrow> nat \<Rightarrow> jsval \<Rightarrow> jsval list" where
  "array_set xs i x =
     (if i < length xs then xs[i := x]
      else xs @ replicate (i - length xs) VUndefined @ [x])"

text \<open>
  \<open>createChildView\<close>, with the \<open>init\<close> of a new instance as an argument. A view class
  is instantiated from its prototype with this view as the parent, under the next unused
  guid; an instance gets this view as its parent; anything else fails the assertion.
\<close>

definition createChildView_with ::
  "(vid \<Rightarrow> state \<Rightarrow> state res) \<Rightarrow> nat \<Rightarrow> vid \<Rightarrow> jsval \<Rightarrow> state \<Rightarrow> (jsval \<times> state) res" where
  "createChildView_with init' n v view s =
     (case view of
        VClass c \<Rightarrow>
          (let u = next_view s;
               s1 = s\<lparr>views := (views s)(u := (classes s c)\<lparr>parentView := Some v\<rparr>),
                      next_view := Suc u\<rparr>
           in and_then (init' u s1) (\<lambda>s2. Ok (VView u, s2)))
      | VView u \<Rightarrow> and_then (set_parentView n u (Some v) s) (\<lambda>s1. Ok (VView u, s1))
      | _ \<Rightarrow> Throw AssertionFailed)"

text \<open>One step of the loop of \<open>createChildViews\<close>, at index \<open>idx\<close> of the array.\<close>

definition createChildViews_step ::
  "(vid \<Rightarrow> state \<Rightarrow> state res) \<Rightarrow> nat \<Rightarrow> vid \<Rightarrow> aref \<Rightarrow> nat \<Rightarrow> state \<Rightarrow> state res" where
  "createChildViews_step init' n v childViews' idx s =
     (let key = item_at (childArrays s childViews') idx
      in if truthy key then
           (let view = (case key of VStr k \<Rightarrow> props (views s v) k | _ \<Rightarrow> key)
            in if \<not> truthy view then Ok (s\<lparr>trace := trace s @ [LoggerError v]\<rparr>)
               else and_then (createChildView_with init' n v view s) (\<lambda>r.
                 let s1 = (case key of
                             VStr k \<Rightarrow> upd_view v (\<lambda>w. w\<lparr>props := (props w)(k := fst r)\<rparr>) (snd r)
                           | _ \<Rightarrow> snd r)
                 in Ok (s1\<lparr>childArrays := (childArrays s1)
                          (childViews' := array_set (childArrays s1 childViews') idx (fst r))\<rparr>)))
         else Ok (s\<lparr>childArrays := (childArrays s)
                    (childViews' := array_set (childArrays s childViews') idx key)\<rparr>))"

text \<open>A loop \<open>for (idx = i; ...; ++idx)\<close> with \<open>k\<close> steps left.\<close>

fun for_idx :: "(nat \<Rightarrow> 's \<Rightarrow> 's res) \<Rightarrow> nat \<Rightarrow> nat \<Rightarrow> 's \<Rightarrow> 's res" where
  "for_idx body idx 0 s = Ok s"
| "for_idx body idx (Suc k) s = and_then (body idx s) (for_idx body (Suc idx) k)"

definition createChildViews_with ::
  "(vid \<Rightarrow> state \<Rightarrow> state res) \<Rightarrow> nat \<Rightarrow> vid \<Rightarrow> state \<Rightarrow> state res" where
  "createChildViews_with init' n v s =
     (let childViews' = childViews (views s v);
          len = length (childArrays s childViews')
      in for_idx (createChildViews_step init' n v childViews') 0 len s)"

text \<open>
  \<open>init\<close>: registers the view under its element id, takes copies of the three arrays and
  sets up the child views. The \<open>init\<close> of \<open>SC.Object\<close>, reached by \<open>this._super()\<close>,
  touches none of the properties of a view.
\<close>

fun init :: "nat \<Rightarrow> vid \<Rightarrow> state \<Rightarrow> state res" where
  "init 0 v s = None"
| "init (Suc n) v s = createChildViews_with (init n) (Suc n) v (slice_arrays v (register_view v s))"

definition createChildViews :: "nat \<Rightarrow> vid \<Rightarrow> state \<Rightarrow> state res" where
  "createChildViews n = createChildViews_with (init n) (Suc n)"

definition createChildView :: "nat \<Rightarrow> vid \<Rightarrow> jsval \<Rightarrow> state \<Rightarrow> (jsval \<times> state) res" where
  "createChildView n = createChildView_with (init n) (Suc n)"


text \<open>
  Modelled from the spec: \<open>create\<close> of \<open>SC.Object\<close>, which makes an instance of a
  class and calls its \<open>init\<close>. The instance starts from the prototype of the class
  and takes the next unused guid.
\<close>

definition create_view :: "nat \<Rightarrow> cid \<Rightarrow> state \<Rightarrow> (vid \<times> state) res" where
  "create_view n c s =
     (let u = next_view s;
          s1 = s\<lparr>views := (views s)(u := classes s c), next_view := Suc u\<rparr>
      in and_then (init n u s1) (\<lambda>s2. Ok (u, s2)))"

section \<open>An example page\<close>

text \<open>
  The prototype of \<open>SC.View\<close> with the defaults of the class, and three classes made
  from it: a plain view; a view with the bindings \<open>isUrgent\<close>, \<open>isDone:done\<close> and
  \<open>priority\<close>; a view whose \<open>childViews\<close> name the other two classes; and a view
  with the element id \<open>main\<close>.
\<close>

definition view_prototype :: view where
  "view_prototype =
     \<lparr>elementId = None, tagName = ''div'', ariaRole = None, isVisible = True,
      parentView = None, childViews = 0, classNames = 0, classNameBindings = 0,
      element = None, isDestroyed = False, didRenderChildViews = False,
      elementNeedsUpdate = False, templateName = None, template = None,
      defaultTemplate = None, props = (\<lambda>k. VUndefined)\<rparr>"

definition bound_props :: "string \<Rightarrow> jsval" where
  "bound_props =
     (\<lambda>k. VUndefined)(''isUrgent'' := VBool True, ''isDone'' := VBool True,
        ''priority'' := VStr ''high'')"

definition example_classes :: "cid \<Rightarrow> view" where
  "example_classes =
     (\<lambda>c. view_prototype)
       (1 := view_prototype\<lparr>tagName := ''span'', classNameBindings := 1, props := bound_props\<rparr>,
        2 := view_prototype\<lparr>tagName := ''ul'', childViews := 1\<rparr>,
        3 := view_prototype\<lparr>elementId := Some ''main''\<rparr>)"

definition example_page :: state where
  "example_page =
     \<lparr>views = (\<lambda>v. view_prototype), next_view = 0, classes = example_classes,
      childArrays = (\<lambda>a. [])(1 := [VClass 0, VClass 1]),
      nameArrays = (\<lambda>a. [VStr ''sc-view'']),
      bindingArrays = (\<lambda>a. [])(1 := [''isUrgent'', ''isDone:done'', ''priority'']),
      next_array = 2, registry = Map.empty, observers = [], templates = Map.empty,
      trace = []\<rparr>"


text \<open>
  The page as \<open>create\<close> of the third class leaves it: view 0 with the child views 1
  and 2, each registered and with its own copies of the arrays.
\<close>

definition example_tree :: state where
  "example_tree =
     \<lparr>views = (\<lambda>v. view_prototype)
        (0 := view_prototype\<lparr>tagName := ''ul'', childViews := 2, classNameBindings := 3,
                classNames := 4\<rparr>,
         1 := view_prototype\<lparr>parentView := Some 0, childViews := 5, classNameBindings := 6,
                classNames := 7\<rparr>,
         2 := view_prototype\<lparr>tagName := ''span'', parentView := Some 0, childViews := 8,
                classNameBindings := 9, classNames := 10, props := bound_props\<rparr>),
      next_view = 3, classes = example_classes,
      childArrays = (\<lambda>a. [])(1 := [VClass 0, VClass 1], 2 := [VView 1, VView 2]),
      nameArrays = (\<lambda>a. [VStr ''sc-view'']),
      bindingArrays = (\<lambda>a. [])
        (1 := [''isUrgent'', ''isDone:done'', ''priority''],
         9 := [''isUrgent'', ''isDone:done'', ''priority'']),
      next_array = 11,
      registry = [''sc0'' \<mapsto> 0, ''sc1'' \<mapsto> 1, ''sc2'' \<mapsto> 2],
      observers = [], templates = Map.empty, trace = []\<rparr>"

text \<open>
  The same page as \<open>createElement\<close> on view 0 leaves it: view 0 holds the element, the
  classes of the bindings of view 2 are in its \<open>classNames\<close> and its observers are
  registered.
\<close>

definition example_element :: html where
  "example_element =
     Node ''ul'' (Some ''sc0'') [''sc-view''] [] []
       [Node ''div'' (Some ''sc1'') [''sc-view''] [] [] [],
        Node ''span'' (Some ''sc2'') [''sc-view'', ''is-urgent'', ''done'', ''high''] [] [] []]"

definition example_observers :: "observer list" where
  "example_observers =
     [\<lparr>ob_target = 2, ob_path = ''isUrgent'', ob_property = ''isUrgent'',
       ob_oldClass = VStr ''is-urgent''\<rparr>,
      \<lparr>ob_target = 2, ob_path = ''isDone:done'', ob_property = ''isDone:done'',
       ob_oldClass = VStr ''done''\<rparr>,
      \<lparr>ob_target = 2, ob_path = ''priority'', ob_property = ''priority'',
       ob_oldClass = VStr ''high''\<rparr>]"

definition example_rendered :: state where
  "example_rendered =
     example_tree
       \<lparr>views := (views example_tree)
          (0 := (views example_tree 0)\<lparr>element := Some example_element\<rparr>),
        nameArrays := (nameArrays example_tree)
          (10 := [VStr ''sc-view'', VStr ''is-urgent'', VStr ''done'', VStr ''high'']),
        observers := example_observers,
        trace := [DidCreateElement 0, DidCreateElement 1, DidCreateElement 2]\<rparr>"

section \<open>The tree of views\<close>

text \<open>The child views of a view, as its array holds them now.\<close>

definition kids :: "state \<Rightarrow> vid \<Rightarrow> jsval list" where
  "kids s v = childArrays s (childViews (views s v))"

text \<open>
  \<open>tree_ok n s v\<close>: below \<open>v\<close> every child is a view, and the tree has fewer than \<open>n\<close>
  levels below \<open>v\<close> and \<open>v\<close> itself.
\<close>

fun tree_ok :: "nat \<Rightarrow> state \<Rightarrow> vid \<Rightarrow> bool" where
  "tree_ok 0 s v = False"
| "tree_ok (Suc n) s v =
     list_all (\<lambda>x. case x of VView c \<Rightarrow> tree_ok n s c | _ \<Rightarrow> False) (kids s v)"

text \<open>The views of the tree below \<open>v\<close>, parents before children, children in array order.\<close>

fun preorder :: "nat \<Rightarrow> state \<Rightarrow> vid \<Rightarrow> vid list" where
  "preorder 0 s v = []"
| "preorder (Suc n) s v =
     v # concat (map (\<lambda>x. case x of VView c \<Rightarrow> preorder n s c | _ \<Rightarrow> []) (kids s v))"

section \<open>What a call leaves untouched\<close>

text \<open>\<open>only_elements s s'\<close>: the two states differ at most in the elements the views hold.\<close>

definition only_elements :: "state \<Rightarrow> state \<Rightarrow> bool" where
  "only_elements s s' \<longleftrightarrow>
     s' = s\<lparr>views := views s'\<rparr> \<and>
     (\<forall>u. views s' u = (views s u)\<lparr>element := element (views s' u)\<rparr>)"

text \<open>
  \<open>render_frame s s'\<close>: the two states differ at most in what rendering writes: the
  arrays of class names, the observers, and the flags \<open>_didRenderChildViews\<close> and
  \<open>elementNeedsUpdate\<close> of the views.
\<close>

definition render_frame :: "state \<Rightarrow> state \<Rightarrow> bool" where
  "render_frame s s' \<longleftrightarrow>
     s' = s\<lparr>views := views s', nameArrays := nameArrays s', observers := observers s'\<rparr> \<and>
     (\<forall>u. views s' u =
        (views s u)\<lparr>didRenderChildViews := didRenderChildViews (views s' u),
                     elementNeedsUpdate := elementNeedsUpdate (views s' u)\<rparr>)"


text \<open>The views below \<open>v\<close>, without \<open>v\<close> itself.\<close>

definition below :: "nat \<Rightarrow> state \<Rightarrow> vid \<Rightarrow> vid list" where
  "below n s v = concat (map (\<lambda>x. case x of VView c \<Rightarrow> preorder n s c | _ \<Rightarrow> []) (kids s v))"



text \<open>The trace, the observers and the element of a view in the state a call returned.\<close>

definition trace_of :: "state res \<Rightarrow> event list res" where
  "trace_of r = and_then r (\<lambda>s. Ok (trace s))"

definition observers_of :: "state res \<Rightarrow> observer list res" where
  "observers_of r = and_then r (\<lambda>s. Ok (observers s))"

definition element_of :: "vid \<Rightarrow> state res \<Rightarrow> html option res" where
  "element_of v r = and_then r (\<lambda>s. Ok (element (views s v)))"

text \<open>The example page with a template stored in view 0, which returns a fixed text.\<close>

definition example_templated :: state where
  "example_templated =
     example_tree
       \<lparr>views := (views example_tree)
          (0 := (views example_tree 0)\<lparr>template := Some ''hello''\<rparr>)\<rparr>"



section \<open>What setting up a view leaves untouched\<close>

text \<open>The array references of a view lie in a range of references.\<close>

definition fresh_refs :: "aref \<Rightarrow> aref \<Rightarrow> view \<Rightarrow> bool" where
  "fresh_refs lo hi w \<longleftrightarrow>
     lo \<le> childViews w \<and> childViews w < hi \<and>
     lo \<le> classNameBindings w \<and> classNameBindings w < hi \<and>
     lo \<le> classNames w \<and> classNames w < hi"

text \<open>Two views have the same array references and the same element id.\<close>

definition same_refs :: "view \<Rightarrow> view \<Rightarrow> bool" where
  "same_refs w w' \<longleftrightarrow>
     childViews w' = childViews w \<and> classNameBindings w' = classNameBindings w \<and>
     classNames w' = classNames w \<and> elementId w' = elementId w"

text \<open>
  \<open>grows X s t\<close>: from \<open>s\<close> to \<open>t\<close> views and arrays have only been added. The classes are
  the same; every array that existed keeps its content (an array of child views with a
  reference in \<open>X\<close> keeps at least its length); every view that existed keeps its array
  references and its element id; every new view has array references that are new; and
  an entry of the registry is as it was, or is the entry of a new view under its element
  id.
\<close>

definition grows :: "aref set \<Rightarrow> state \<Rightarrow> state \<Rightarrow> bool" where
  "grows X s t \<longleftrightarrow>
     next_array s \<le> next_array t \<and> next_view s \<le> next_view t \<and> classes t = classes s \<and>
     (\<forall>r<next_array s.
        (r \<notin> X \<longrightarrow> childArrays t r = childArrays s r) \<and>
        length (childArrays t r) = length (childArrays s r) \<and>
        nameArrays t r = nameArrays s r \<and> bindingArrays t r = bindingArrays s r) \<and>
     (\<forall>u<next_view s. same_refs (views s u) (views t u)) \<and>
     (\<forall>u. next_view s \<le> u \<and> u < next_view t \<longrightarrow>
        fresh_refs (next_array s) (next_array t) (views t u)) \<and>
     (\<forall>k. registry t k = registry s k \<or>
        (\<exists>u. next_view s \<le> u \<and> u < next_view t \<and> registry t k = Some u \<and>
           get_elementId t u = k))"

section \<open>What destroying a view leaves untouched\<close>

text \<open>
  \<open>shrinks s t\<close>: from \<open>s\<close> to \<open>t\<close> views have only been destroyed. Every view keeps its
  element id, a destroyed view stays destroyed, and an entry of the registry is as it was,
  or is gone and was under the element id of a view that has been destroyed in between.
\<close>

definition shrinks :: "state \<Rightarrow> state \<Rightarrow> bool" where
  "shrinks s t \<longleftrightarrow>
     (\<forall>x. elementId (views t x) = elementId (views s x)) \<and>
     (\<forall>x. isDestroyed (views s x) \<longrightarrow> isDestroyed (views t x)) \<and>
     (\<forall>k. registry t k = registry s k \<or>
        (registry t k = None \<and>
         (\<exists>x. get_elementId s x = k \<and> \<not> isDestroyed (views s x) \<and> isDestroyed (views t x))))"

text \<open>
  The example page with an instance of the fourth class made and not yet set up: view 0,
  whose element id is \<open>main\<close>.
\<close>

definition example_named :: state where
  "example_named = example_page\<lparr>views := (views example_page)(0 := example_classes 3),
     next_view := Suc 0\<rparr>"

text \<open>An entry of the registry and the flag \<open>isDestroyed\<close> in the state a call returned.\<close>

definition registry_of :: "string \<Rightarrow> state res \<Rightarrow> vid option res" where
  "registry_of k r = and_then r (\<lambda>s. Ok (registry s k))"

definition destroyed_of :: "vid \<Rightarrow> state res \<Rightarrow> bool res" where
  "destroyed_of v r = and_then r (\<lambda>s. Ok (isDestroyed (views s v)))"

text \<open>The class of a binding in the state a call returned.\<close>

definition class_of :: "vid \<Rightarrow> string \<Rightarrow> state res \<Rightarrow> jsval res" where
  "class_of v property r = and_then r (\<lambda>s. Ok (classStringForProperty s v property))"

text \<open>The number of views made so far in the state a call returned.\<close>

definition next_view_of :: "state res \<Rightarrow> vid res" where
  "next_view_of r = and_then r (\<lambda>s. Ok (next_view s))"

text \<open>
  The example page with an instance of the third class made and not yet set up (view 0),
  and the states that \<open>init\<close> of view 0 returns from it and from the page with the
  instance of the fourth class.
\<close>

definition example_made :: state where
  "example_made = example_page\<lparr>views := (views example_page)(0 := example_classes 2),
     next_view := Suc 0\<rparr>"







section \<open>Basic facts\<close>

lemma and_then_simps [simp]:
  "and_then None f = None"
  "and_then (Throw e) f = Throw e"
  "and_then (Ok x) f = f x"
  by (simp_all add: and_then_def)

lemma and_then_eq_Ok:
  "and_then m f = Ok y \<longleftrightarrow> (\<exists>x. m = Ok x \<and> f x = Ok y)"
  by (auto simp: and_then_def split: option.splits sum.splits)

lemma split_on_nonempty: "split_on c xs \<noteq> []"
  by (induction xs) (auto split: list.splits)

lemma split_on_no_sep: "c \<notin> set xs \<Longrightarrow> split_on c xs = [xs]"
  by (induction xs) auto

lemma split_on_sep: "c \<notin> set p \<Longrightarrow> split_on c (p @ c # r) = p # split_on c r"
  by (induction p) (auto split: list.splits)

lemmas example_defs =
  example_tree_def example_rendered_def example_element_def example_observers_def
  example_classes_def view_prototype_def bound_props_def

section \<open>The class of a binding\<close>

text \<open>
  C5. For a binding on a property path (a path without a colon, alone or followed by a
  colon and a class name): when the value of the path is \<open>true\<close>, the class is the class
  name given after the colon if there is one, and else the dasherized last segment of the
  path; when the value is none of \<open>true\<close>, \<open>false\<close>, \<open>undefined\<close> and \<open>null\<close>, the class
  is that value itself; when the value is \<open>false\<close>, \<open>undefined\<close> or \<open>null\<close>, the result is
  \<open>null\<close>.
\<close>

theorem classStringForProperty_cases:
  "CHR '':'' \<notin> set path \<longrightarrow>
   (getPath s v path = VBool True \<longrightarrow>
      classStringForProperty s v path = VStr (dasherize (last (split_on CHR ''.'' path))) \<and>
      (cls \<noteq> [] \<and> CHR '':'' \<notin> set cls \<longrightarrow>
         classStringForProperty s v (path @ CHR '':'' # cls) = VStr cls)) \<and>
   (getPath s v path \<notin> {VBool True, VBool False, VUndefined, VNull} \<longrightarrow>
      classStringForProperty s v path = getPath s v path \<and>
      classStringForProperty s v (path @ CHR '':'' # cls) = getPath s v path) \<and>
   (getPath s v path \<in> {VBool False, VUndefined, VNull} \<longrightarrow>
      classStringForProperty s v path = VNull \<and>
      classStringForProperty s v (path @ CHR '':'' # cls) = VNull)"
proof (intro impI)
  assume np: "CHR '':'' \<notin> set path"
  have a: "split_on CHR '':'' path = [path]"
    using np by (rule split_on_no_sep)
  have b: "split_on CHR '':'' (path @ CHR '':'' # cls) = path # split_on CHR '':'' cls"
    using np by (rule split_on_sep)
  obtain w ws where c: "split_on CHR '':'' cls = w # ws"
    using split_on_nonempty [of "CHR '':''" cls] by (cases "split_on CHR '':'' cls") auto
  have d: "CHR '':'' \<notin> set cls \<Longrightarrow> w = cls"
    using c split_on_no_sep [of "CHR '':''" cls] by simp
  show "(getPath s v path = VBool True \<longrightarrow>
      classStringForProperty s v path = VStr (dasherize (last (split_on CHR ''.'' path))) \<and>
      (cls \<noteq> [] \<and> CHR '':'' \<notin> set cls \<longrightarrow>
         classStringForProperty s v (path @ CHR '':'' # cls) = VStr cls)) \<and>
   (getPath s v path \<notin> {VBool True, VBool False, VUndefined, VNull} \<longrightarrow>
      classStringForProperty s v path = getPath s v path \<and>
      classStringForProperty s v (path @ CHR '':'' # cls) = getPath s v path) \<and>
   (getPath s v path \<in> {VBool False, VUndefined, VNull} \<longrightarrow>
      classStringForProperty s v path = VNull \<and>
      classStringForProperty s v (path @ CHR '':'' # cls) = VNull)"
    using d by (auto simp: classStringForProperty_def Let_def a b c)
qed

theorem classStringForProperty_cases_witness:
  "classStringForProperty example_tree 2 ''isUrgent'' = VStr ''is-urgent'' \<and>
   classStringForProperty example_tree 2 ''isDone:done'' = VStr ''done'' \<and>
   classStringForProperty example_tree 2 ''priority'' = VStr ''high'' \<and>
   classStringForProperty example_tree 2 ''priority:top'' = VStr ''high'' \<and>
   classStringForProperty example_tree 2 ''missing'' = VNull"
  using classStringForProperty_cases [of "''isUrgent''" example_tree 2 "''x''"]
    classStringForProperty_cases [of "''isDone''" example_tree 2 "''done''"]
    classStringForProperty_cases [of "''priority''" example_tree 2 "''top''"]
    classStringForProperty_cases [of "''missing''" example_tree 2 "''x''"]
  by (simp add: example_defs getPath_def dasherize_def decamelize_def is_lower_def
      is_upper_def to_lower_def)

section \<open>Destroying an element that is absent\<close>

text \<open>
  C10. When the view has no element, \<open>destroyElement\<close> returns with the state as it was:
  no hook is called, no element is removed and the element is still absent.
\<close>

theorem destroyElement_absent:
  "get_element m s v = Ok None \<Longrightarrow> destroyElement m n v s = Ok s"
  by (simp add: destroyElement_def)

theorem destroyElement_absent_witness:
  "get_element (Suc (Suc 0)) example_tree 1 = Ok None \<and>
   destroyElement (Suc (Suc 0)) 0 1 example_tree = Ok example_tree"
  using destroyElement_absent [of "Suc (Suc 0)" example_tree 1 0]
  by (simp add: example_defs)

section \<open>Destroying a view twice\<close>

text \<open>
  C9. On a view that is already destroyed, \<open>destroy\<close> returns at once with the state as
  it was; and a state that \<open>destroy\<close> has returned is left as it is by a second call.
\<close>

theorem destroy_idempotent:
  "(isDestroyed (views s v) \<longrightarrow> destroy m (Suc n) v s = Ok s) \<and>
   (destroy m n v s = Ok s' \<longrightarrow> destroy m n v s' = Ok s')"
proof (intro conjI impI)
  show "destroy m (Suc n) v s = Ok s" if "isDestroyed (views s v)"
    using that by simp
  show "destroy m n v s' = Ok s'" if r: "destroy m n v s = Ok s'"
  proof (cases n)
    case 0
    with r show ?thesis by simp
  next
    case (Suc k)
    show ?thesis
    proof (cases "isDestroyed (views s v)")
      case True
      with r Suc show ?thesis by simp
    next
      case False
      with r Suc obtain s4 where "s' = super_destroy v s4"
        by (auto simp: and_then_eq_Ok Let_def)
      then have "isDestroyed (views s' v)"
        by (simp add: super_destroy_def upd_view_def)
      with Suc show ?thesis by simp
    qed
  qed
qed

theorem destroy_idempotent_witness:
  "isDestroyed (views (super_destroy 0 example_tree) 0) \<and>
   destroy 0 (Suc 0) 0 (super_destroy 0 example_tree) = Ok (super_destroy 0 example_tree)"
  using destroy_idempotent [of "super_destroy 0 example_tree" 0 0 0 "super_destroy 0 example_tree"]
    destroy_idempotent [of "super_destroy 0 example_tree" 0 0 "Suc 0" "super_destroy 0 example_tree"]
  by (simp add: super_destroy_def upd_view_def)

section \<open>Loops over the child views\<close>

lemma for_each_from_total:
  assumes "Q idx s"
    and "\<And>i t. idx \<le> i \<Longrightarrow> i < idx + k \<Longrightarrow> Q i t \<Longrightarrow>
           \<exists>t'. cb (item_at (rd t) i) t = Ok t' \<and> Q (Suc i) t'"
  shows "\<exists>t'. for_each_from rd cb idx k s = Ok t' \<and> Q (idx + k) t'"
  using assms
proof (induction k arbitrary: idx s)
  case 0
  then show ?case by simp
next
  case (Suc k)
  obtain t where t: "cb (item_at (rd s) idx) s = Ok t" "Q (Suc idx) t"
    using Suc.prems(2) [of idx s] Suc.prems(1) by auto
  have "\<exists>t'. for_each_from rd cb (Suc idx) k t = Ok t' \<and> Q (Suc idx + k) t'"
  proof (rule Suc.IH [OF t(2)])
    fix i u
    assume "Suc idx \<le> i" "i < Suc idx + k" "Q i u"
    then show "\<exists>t'. cb (item_at (rd u) i) u = Ok t' \<and> Q (Suc i) t'"
      using Suc.prems(2) [of i u] by simp
  qed
  with t(1) show ?case by simp
qed


section \<open>The tree of views under a change of the state\<close>

lemma tree_ok_cong: "kids s' = kids s \<Longrightarrow> tree_ok n s' v = tree_ok n s v"
proof (induction n arbitrary: v)
  case 0
  then show ?case by simp
next
  case (Suc n)
  have "tree_ok n s' = tree_ok n s"
    using Suc.IH [OF Suc.prems] by (intro ext)
  then show ?case using Suc.prems by simp
qed

lemma preorder_cong: "kids s' = kids s \<Longrightarrow> preorder n s' v = preorder n s v"
proof (induction n arbitrary: v)
  case 0
  then show ?case by simp
next
  case (Suc n)
  have "preorder n s' = preorder n s"
    using Suc.IH [OF Suc.prems] by (intro ext)
  then show ?case using Suc.prems by simp
qed

lemma tree_ok_child:
  assumes "tree_ok (Suc n) s v" and "i < length (kids s v)"
  shows "\<exists>c. kids s v ! i = VView c \<and> tree_ok n s c"
proof -
  have "(case kids s v ! i of VView c \<Rightarrow> tree_ok n s c | _ \<Rightarrow> False)"
    using assms by (simp add: list_all_length)
  then show ?thesis by (cases "kids s v ! i") auto
qed

lemma kids_trace [simp]: "kids (s\<lparr>trace := t\<rparr>) = kids s"
  by (rule ext) (simp add: kids_def)

lemma only_elements_refl [simp]: "only_elements s s"
  by (simp add: only_elements_def)

lemma only_elements_trans:
  "only_elements s t \<Longrightarrow> only_elements t u \<Longrightarrow> only_elements s u"
  unfolding only_elements_def
  by (metis (no_types, lifting) state.surjective state.update_convs(1) view.surjective
      view.update_convs(9))


lemma only_elements_kids: "only_elements s s' \<Longrightarrow> kids s' = kids s"
  unfolding only_elements_def
  by (rule ext) (metis (no_types, lifting) kids_def state.select_convs(4) state.surjective
      state.update_convs(1) view.select_convs(6) view.surjective view.update_convs(9))

lemma only_elements_upd [simp]:
  "only_elements s (upd_view v (\<lambda>w. w\<lparr>element := x\<rparr>) s)"
  by (simp add: only_elements_def upd_view_def)

lemma only_elements_fields:
  assumes "only_elements s s'"
  shows "trace s' = trace s" "observers s' = observers s" "registry s' = registry s"
    "nameArrays s' = nameArrays s" "childArrays s' = childArrays s"
    "parentView (views s' u) = parentView (views s u)"
    "elementId (views s' u) = elementId (views s u)"
    "isDestroyed (views s' u) = isDestroyed (views s u)"
    "childViews (views s' u) = childViews (views s u)"
proof -
  from assms have a: "s' = s\<lparr>views := views s'\<rparr>"
    and b: "views s' u = (views s u)\<lparr>element := element (views s' u)\<rparr>"
    by (simp_all add: only_elements_def)
  show "trace s' = trace s" by (subst a) simp
  show "observers s' = observers s" by (subst a) simp
  show "registry s' = registry s" by (subst a) simp
  show "nameArrays s' = nameArrays s" by (subst a) simp
  show "childArrays s' = childArrays s" by (subst a) simp
  show "parentView (views s' u) = parentView (views s u)" by (subst b) simp
  show "elementId (views s' u) = elementId (views s u)" by (subst b) simp
  show "isDestroyed (views s' u) = isDestroyed (views s u)" by (subst b) simp
  show "childViews (views s' u) = childViews (views s u)" by (subst b) simp
qed

section \<open>The notifications walk the tree parents first\<close>

lemma notifyDidCreateElement_total:
  "tree_ok n s v \<Longrightarrow>
   notifyDidCreateElement n v s =
     Ok (s\<lparr>trace := trace s @ map DidCreateElement (preorder n s v)\<rparr>)"
proof (induction n arbitrary: v s)
  case 0
  then show ?case by simp
next
  case (Suc n)
  define xs where "xs = kids s v"
  define ev where
    "ev = (\<lambda>x. case x of VView c \<Rightarrow> map DidCreateElement (preorder n s c) | _ \<Rightarrow> [])"
  define Q where
    "Q = (\<lambda>i t. t = s\<lparr>trace := trace s @ DidCreateElement v # concat (map ev (take i xs))\<rparr>)"
  define cb where
    "cb = (\<lambda>item (s1::state). case item of VView view \<Rightarrow> notifyDidCreateElement n view s1
              | _ \<Rightarrow> Throw TypeError)"
  define rd where "rd = (\<lambda>s'::state. childArrays s' (childViews (views s v)))"
  have q0: "Q 0 (didCreateElement v s)"
    by (simp add: Q_def didCreateElement_def)
  have step: "\<exists>t'. cb (item_at (rd t) i) t = Ok t' \<and> Q (Suc i) t'"
    if il: "i < 0 + length xs" and qi: "Q i t" for i t
  proof -
    from qi have t: "t = s\<lparr>trace := trace s @ DidCreateElement v # concat (map ev (take i xs))\<rparr>"
      by (simp add: Q_def)
    have rdt: "rd t = xs" by (simp add: rd_def t xs_def kids_def)
    obtain c where c: "xs ! i = VView c" "tree_ok n s c"
      using tree_ok_child [OF Suc.prems, of i] il by (auto simp: xs_def)
    have kt: "kids t = kids s" by (simp add: t)
    have "tree_ok n t c" using c(2) tree_ok_cong [OF kt] by simp
    from Suc.IH [OF this]
    have res: "notifyDidCreateElement n c t =
            Ok (t\<lparr>trace := trace t @ map DidCreateElement (preorder n s c)\<rparr>)"
      by (simp add: preorder_cong [OF kt])
    have tk: "take (Suc i) xs = take i xs @ [VView c]"
      using il c(1) by (simp add: take_Suc_conv_app_nth)
    have item: "item_at (rd t) i = VView c"
      using il c(1) by (simp add: rdt item_at_def)
    have "Q (Suc i) (t\<lparr>trace := trace t @ map DidCreateElement (preorder n s c)\<rparr>)"
      by (simp add: Q_def t tk ev_def)
    then show ?thesis
      by (simp add: cb_def item res)
  qed
  have "\<exists>t'. for_each_from rd cb 0 (length xs) (didCreateElement v s) = Ok t' \<and>
          Q (0 + length xs) t'"
    using for_each_from_total [where Q = Q and idx = 0 and k = "length xs" and cb = cb
        and rd = rd and s = "didCreateElement v s"] q0 step
    by simp
  then have "for_each_from rd cb 0 (length xs) (didCreateElement v s) =
      Ok (s\<lparr>trace := trace s @ DidCreateElement v # concat (map ev xs)\<rparr>)"
    by (auto simp: Q_def)
  moreover have "map DidCreateElement (preorder (Suc n) s v) =
      DidCreateElement v # concat (map ev xs)"
    by (simp add: xs_def ev_def map_concat comp_def jsval.case_distrib [of "map DidCreateElement"]
        cong: jsval.case_cong)
  ultimately show ?case
    by (simp add: forEachChildView_def Let_def didCreateElement_def xs_def kids_def cb_def rd_def)
qed

lemma notifyWillDestroyElement_total:
  "tree_ok n s v \<Longrightarrow>
   notifyWillDestroyElement n v s =
     Ok (s\<lparr>trace := trace s @ map WillDestroyElement (preorder n s v)\<rparr>)"
proof (induction n arbitrary: v s)
  case 0
  then show ?case by simp
next
  case (Suc n)
  define xs where "xs = kids s v"
  define ev where
    "ev = (\<lambda>x. case x of VView c \<Rightarrow> map WillDestroyElement (preorder n s c) | _ \<Rightarrow> [])"
  define Q where
    "Q = (\<lambda>i t. t = s\<lparr>trace := trace s @ WillDestroyElement v # concat (map ev (take i xs))\<rparr>)"
  define cb where
    "cb = (\<lambda>item (s1::state). case item of VView view \<Rightarrow> notifyWillDestroyElement n view s1
              | _ \<Rightarrow> Throw TypeError)"
  define rd where "rd = (\<lambda>s'::state. childArrays s' (childViews (views s v)))"
  have q0: "Q 0 (willDestroyElement v s)"
    by (simp add: Q_def willDestroyElement_def)
  have step: "\<exists>t'. cb (item_at (rd t) i) t = Ok t' \<and> Q (Suc i) t'"
    if il: "i < 0 + length xs" and qi: "Q i t" for i t
  proof -
    from qi have t: "t = s\<lparr>trace := trace s @ WillDestroyElement v # concat (map ev (take i xs))\<rparr>"
      by (simp add: Q_def)
    have rdt: "rd t = xs" by (simp add: rd_def t xs_def kids_def)
    obtain c where c: "xs ! i = VView c" "tree_ok n s c"
      using tree_ok_child [OF Suc.prems, of i] il by (auto simp: xs_def)
    have kt: "kids t = kids s" by (simp add: t)
    have "tree_ok n t c" using c(2) tree_ok_cong [OF kt] by simp
    from Suc.IH [OF this]
    have res: "notifyWillDestroyElement n c t =
            Ok (t\<lparr>trace := trace t @ map WillDestroyElement (preorder n s c)\<rparr>)"
      by (simp add: preorder_cong [OF kt])
    have tk: "take (Suc i) xs = take i xs @ [VView c]"
      using il c(1) by (simp add: take_Suc_conv_app_nth)
    have item: "item_at (rd t) i = VView c"
      using il c(1) by (simp add: rdt item_at_def)
    have "Q (Suc i) (t\<lparr>trace := trace t @ map WillDestroyElement (preorder n s c)\<rparr>)"
      by (simp add: Q_def t tk ev_def)
    then show ?thesis
      by (simp add: cb_def item res)
  qed
  have "\<exists>t'. for_each_from rd cb 0 (length xs) (willDestroyElement v s) = Ok t' \<and>
          Q (0 + length xs) t'"
    using for_each_from_total [where Q = Q and idx = 0 and k = "length xs" and cb = cb
        and rd = rd and s = "willDestroyElement v s"] q0 step
    by simp
  then have "for_each_from rd cb 0 (length xs) (willDestroyElement v s) =
      Ok (s\<lparr>trace := trace s @ WillDestroyElement v # concat (map ev xs)\<rparr>)"
    by (auto simp: Q_def)
  moreover have "map WillDestroyElement (preorder (Suc n) s v) =
      WillDestroyElement v # concat (map ev xs)"
    by (simp add: xs_def ev_def map_concat comp_def jsval.case_distrib [of "map WillDestroyElement"]
        cong: jsval.case_cong)
  ultimately show ?case
    by (simp add: forEachChildView_def Let_def willDestroyElement_def xs_def kids_def cb_def rd_def)
qed

lemma sccv_elementDidChange_total:
  "tree_ok n s v \<Longrightarrow> \<exists>s'. sccv_elementDidChange n v s = Ok s' \<and> only_elements s s'"
proof (induction n arbitrary: v s)
  case 0
  then show ?case by simp
next
  case (Suc n)
  define xs where "xs = kids s v"
  define cb where
    "cb = (\<lambda>item (s1::state). case item of
              VView view \<Rightarrow>
                sccv_elementDidChange n view (upd_view view (\<lambda>w. w\<lparr>element := None\<rparr>) s1)
            | _ \<Rightarrow> Throw TypeError)"
  define rd where "rd = (\<lambda>s'::state. childArrays s' (childViews (views s v)))"
  define Q where "Q = (\<lambda>(i::nat) t. only_elements s t)"
  have q0: "Q 0 s" by (simp add: Q_def)
  have step: "\<exists>t'. cb (item_at (rd t) i) t = Ok t' \<and> Q (Suc i) t'"
    if il: "i < 0 + length xs" and qi: "Q i t" for i t
  proof -
    from qi have oe: "only_elements s t" by (simp add: Q_def)
    have rdt: "rd t = xs"
      by (simp add: rd_def xs_def kids_def only_elements_fields(5) [OF oe])
    obtain c where c: "xs ! i = VView c" "tree_ok n s c"
      using tree_ok_child [OF Suc.prems, of i] il by (auto simp: xs_def)
    define t1 where "t1 = upd_view c (\<lambda>w. w\<lparr>element := None\<rparr>) t"
    have oe1: "only_elements s t1"
      using only_elements_trans [OF oe] by (simp add: t1_def)
    have "tree_ok n t1 c"
      using c(2) tree_ok_cong [OF only_elements_kids [OF oe1]] by simp
    from Suc.IH [OF this] obtain t' where t': "sccv_elementDidChange n c t1 = Ok t'"
      "only_elements t1 t'"
      by auto
    have item: "item_at (rd t) i = VView c"
      using il c(1) by (simp add: rdt item_at_def)
    have "Q (Suc i) t'"
      using only_elements_trans [OF oe1 t'(2)] by (simp add: Q_def)
    then show ?thesis
      using t'(1) by (simp add: cb_def item t1_def)
  qed
  have "\<exists>t'. for_each_from rd cb 0 (length xs) s = Ok t' \<and> Q (0 + length xs) t'"
    using for_each_from_total [where Q = Q and idx = 0 and k = "length xs" and cb = cb
        and rd = rd and s = s] q0 step
    by simp
  then show ?case
    by (simp add: forEachChildView_def Let_def xs_def kids_def cb_def rd_def Q_def)
qed

lemma set_element_total:
  assumes "tree_ok n s v"
  shows "\<exists>s'. set_element n v x s = Ok s' \<and> only_elements s s'"
proof -
  define s1 where "s1 = upd_view v (\<lambda>w. w\<lparr>element := x\<rparr>) s"
  have oe: "only_elements s s1" by (simp add: s1_def)
  have "tree_ok n s1 v"
    using assms tree_ok_cong [OF only_elements_kids [OF oe]] by simp
  from sccv_elementDidChange_total [OF this] obtain s' where
    "sccv_elementDidChange n v s1 = Ok s'" "only_elements s1 s'"
    by auto
  then show ?thesis
    using only_elements_trans [OF oe] by (auto simp: set_element_def s1_def)
qed

lemma update_element_total:
  "get_element m s v = Ok r \<Longrightarrow> \<exists>s'. update_element m v f s = Ok s' \<and> only_elements s s'"
proof (induction m arbitrary: v f r)
  case 0
  then show ?case by simp
next
  case (Suc m)
  show ?case
  proof (cases "element (views s v)")
    case (Some el)
    show ?thesis
    proof (cases "f el")
      case Nil
      with Some show ?thesis by simp
    next
      case (Cons a as)
      with Some show ?thesis by (cases as) simp_all
    qed
  next
    case None
    show ?thesis
    proof (cases "parentView (views s v)")
      case n2: None
      with None show ?thesis by simp
    next
      case (Some parent)
      with None Suc.prems obtain r' where "get_element m s parent = Ok r'"
        by (auto simp: and_then_eq_Ok)
      from Suc.IH [OF this] None Some show ?thesis by simp
    qed
  qed
qed

lemma get_element_cong: "views s' = views s \<Longrightarrow> get_element m s' v = get_element m s v"
proof (induction m arbitrary: v)
  case 0
  then show ?case by simp
next
  case (Suc m)
  have "findElementInParentElement s' v = findElementInParentElement s v"
    using Suc.prems by (intro ext) (simp add: findElementInParentElement_def get_elementId_def)
  then show ?case
    using Suc.IH [OF Suc.prems] Suc.prems by (simp split: option.splits)
qed

lemma destroyElement_total:
  assumes "tree_ok n s v" and "get_element m s v = Ok (Some e)"
  shows "\<exists>s'. destroyElement m n v s = Ok s' \<and>
    only_elements (s\<lparr>trace := trace s @ map WillDestroyElement (preorder n s v)\<rparr>) s'"
proof -
  define s1 where "s1 = s\<lparr>trace := trace s @ map WillDestroyElement (preorder n s v)\<rparr>"
  have n1: "notifyWillDestroyElement n v s = Ok s1"
    using notifyWillDestroyElement_total [OF assms(1)] by (simp add: s1_def)
  have "get_element m s1 v = Ok (Some e)"
    using assms(2) get_element_cong [of s1 s] by (simp add: s1_def)
  from update_element_total [OF this] obtain s2 where s2: "jq_remove m v s1 = Ok s2"
    "only_elements s1 s2"
    by (auto simp: jq_remove_def)
  have "tree_ok n s2 v"
    using assms(1) tree_ok_cong [OF only_elements_kids [OF s2(2)]] tree_ok_cong [of s1 s]
    by (simp add: s1_def)
  from set_element_total [OF this] obtain s' where s': "set_element n v None s2 = Ok s'"
    "only_elements s2 s'"
    by blast
  have "only_elements s1 s'" using only_elements_trans [OF s2(2) s'(2)] .
  then show ?thesis
    using assms(2) n1 s2(1) s'(1) by (auto simp: destroyElement_def s1_def)
qed

section \<open>Rendering\<close>







lemma render_frame_flags [simp]:
  "render_frame s (upd_view v (\<lambda>w. w\<lparr>didRenderChildViews := x\<rparr>) s)"
  "render_frame s (upd_view v (\<lambda>w. w\<lparr>elementNeedsUpdate := y\<rparr>) s)"
  by (simp_all add: render_frame_def upd_view_def)










lemma views_apply_binding [simp]: "views (apply_binding v r property s) = views s"
  by (simp add: apply_binding_def Let_def addObserver_def)

lemma views_applyClassNameBindings [simp]: "views (applyClassNameBindings v s) = views s"
proof -
  have "views (fold (apply_binding v r) ps s) = views s" for r ps
    by (induction ps arbitrary: s) simp_all
  then show ?thesis by (simp add: applyClassNameBindings_def Let_def)
qed





section \<open>A view is not below itself\<close>
















section \<open>Nesting of the child views in the buffer\<close>



section \<open>Creating the element\<close>




section \<open>Destroying the element\<close>

text \<open>
  C2, as amended. On a view that has an element, \<open>destroyElement\<close> returns, and
  \<open>willDestroyElement\<close> has been called on the view itself first and then on the views
  below it, parents before children and children in the order of \<open>childViews\<close>: the
  order in which \<open>didCreateElement\<close> is called at creation, not its reverse.
\<close>

theorem destroyElement_notifies_top_down:
  assumes "tree_ok n s v" and "get_element m s v = Ok (Some e)"
  shows "\<exists>s'. destroyElement m n v s = Ok s' \<and>
      trace s' = trace s @ map WillDestroyElement (preorder n s v) \<and>
      preorder n s v = v # below (n - 1) s v \<and>
      notifyDidCreateElement n v s =
        Ok (s\<lparr>trace := trace s @ map DidCreateElement (preorder n s v)\<rparr>)"
proof -
  from destroyElement_total [OF assms] obtain s' where
    d: "destroyElement m n v s = Ok s'"
    and oe: "only_elements (s\<lparr>trace := trace s @ map WillDestroyElement (preorder n s v)\<rparr>) s'"
    by blast
  have "trace s' = trace s @ map WillDestroyElement (preorder n s v)"
    using only_elements_fields(1) [OF oe] by simp
  moreover have "preorder n s v = v # below (n - 1) s v"
    using assms(1) by (cases n) (simp_all add: below_def)
  ultimately show ?thesis
    using d notifyDidCreateElement_total [OF assms(1)] by blast
qed

theorem destroyElement_notifies_top_down_witness:
  "tree_ok (Suc (Suc 0)) example_rendered 0 \<and>
   get_element (Suc 0) example_rendered 0 = Ok (Some example_element) \<and>
   (\<exists>s'. destroyElement (Suc 0) (Suc (Suc 0)) 0 example_rendered = Ok s' \<and>
      trace s' = trace example_rendered @
        map WillDestroyElement (preorder (Suc (Suc 0)) example_rendered 0) \<and>
      preorder (Suc (Suc 0)) example_rendered 0 = 0 # below (Suc (Suc 0) - 1) example_rendered 0 \<and>
      notifyDidCreateElement (Suc (Suc 0)) 0 example_rendered =
        Ok (example_rendered\<lparr>trace := trace example_rendered @
              map DidCreateElement (preorder (Suc (Suc 0)) example_rendered 0)\<rparr>))"
proof -
  have h1: "tree_ok (Suc (Suc 0)) example_rendered 0"
    by (simp add: example_defs kids_def)
  have h2: "get_element (Suc 0) example_rendered 0 = Ok (Some example_element)"
    by (simp add: example_defs)
  show ?thesis
    using h1 h2 destroyElement_notifies_top_down [OF h1 h2]
    by blast
qed




section \<open>What destroying an element leaves untouched\<close>






section \<open>Setting up a view adds views and arrays\<close>

lemma same_refs_refl [simp]: "same_refs w w"
  by (simp add: same_refs_def)





lemma grows_refl [simp]: "grows X s s"
  by (auto simp: grows_def)
















section \<open>The arrays of a new view\<close>


section \<open>Destroying a view takes it out of the registry\<close>

lemma shrinks_refl [simp]: "shrinks s s"
  by (simp add: shrinks_def)











section \<open>Creating an element leaves the registry alone\<close>





section \<open>The registry entry of a view\<close>

text \<open>Two views have the same guid only when they are the same view.\<close>

lemma digits_not_Nil: "digits n \<noteq> []"
  by (subst digits.simps) simp

lemma digit_inj:
  assumes "a < 10" and "b < 10" and "''0123456789'' ! a = ''0123456789'' ! b"
  shows "a = b"
proof -
  have d: "distinct ''0123456789''"
    by simp
  have l: "length ''0123456789'' = 10"
    by simp
  show ?thesis
    using assms nth_eq_iff_index_eq [OF d, of a b] unfolding l by blast
qed

lemma digits_inj: "digits a = digits b \<Longrightarrow> a = b"
proof (induction a arbitrary: b rule: digits.induct)
  case (1 n)
  show ?case
  proof (cases "n < 10")
    case True
    note n = this
    show ?thesis
    proof (cases "b < 10")
      case True
      have "digits n = [''0123456789'' ! n]" "digits b = [''0123456789'' ! b]"
        using n True by (simp_all add: digits.simps [of n] digits.simps [of b])
      then show ?thesis
        using 1(2) n True digit_inj [of n b] by simp
    next
      case False
      have "digits n = [''0123456789'' ! n]"
        "digits b = digits (b div 10) @ [''0123456789'' ! (b mod 10)]"
        using n False by (simp_all add: digits.simps [of n] digits.simps [of b])
      then show ?thesis
        using 1(2) digits_not_Nil [of "b div 10"] by simp
    qed
  next
    case False
    note n = this
    have dn: "digits n = digits (n div 10) @ [''0123456789'' ! (n mod 10)]"
      using n by (simp add: digits.simps [of n])
    show ?thesis
    proof (cases "b < 10")
      case True
      have "digits b = [''0123456789'' ! b]"
        using True by (simp add: digits.simps [of b])
      then show ?thesis
        using 1(2) dn digits_not_Nil [of "n div 10"] by simp
    next
      case False
      have db: "digits b = digits (b div 10) @ [''0123456789'' ! (b mod 10)]"
        using False by (simp add: digits.simps [of b])
      have e: "digits (n div 10) = digits (b div 10)"
        "''0123456789'' ! (n mod 10) = ''0123456789'' ! (b mod 10)"
        using 1(2) unfolding dn db by simp_all
      have q: "n div 10 = b div 10"
        using 1(1) [OF n e(1)] .
      have r: "n mod 10 = b mod 10"
        using digit_inj [OF _ _ e(2)] by simp
      show ?thesis
        using q r by (metis div_mult_mod_eq)
    qed
  qed
qed

lemma guidFor_inj [simp]: "guidFor a = guidFor b \<longleftrightarrow> a = b"
  using digits_inj [of a b] by (auto simp: guidFor_def)



section \<open>The claims that fail, on the example page\<close>

lemmas eval_defs =
  createElement_def destroyElement_def renderBuffer_def RenderBuffer_def new_frame_def
  render_def get_template_def applyAttributesToBuffer_def applyClassNameBindings_def
  apply_binding_def addObserver_def classStringForProperty_def getPath_def upd_view_def
  buf_addClass_def buf_id_def buf_attr_def buf_style_def buf_begin_def on_top_def buf_push_def
  buf_element_def buf_string_def class_tokens_def get_elementId_def guidFor_def
  set_element_def renderChildViews_with_def forEachChildView_def didCreateElement_def
  willDestroyElement_def jq_remove_def Let_def digits.simps item_at_def
  trace_of_def observers_of_def element_of_def findElementInParentElement_def
  dasherize_def decamelize_def is_lower_def is_upper_def to_lower_def
  mutateChildViews_def removeFromParent_def removeChild_def set_parentView_def super_destroy_def
  set_property_def notifyObservers_def run_observer_def observer_fires_def
  create_view_def createChildViews_with_def createChildViews_step_def createChildView_with_def
  slice_arrays_def register_view_def array_set_def registry_of_def destroyed_of_def
  class_of_def next_view_of_def example_page_def example_named_def example_made_def
  example_templated_def

text \<open>
  \<open>createElement\<close> on view 0 of the example tree returns the state \<open>example_rendered\<close>.
\<close>

lemma example_createElement:
  "createElement (Suc 0) (Suc (Suc 0)) 0 example_tree = Ok example_rendered"
  by (simp add: example_defs eval_defs fun_eq_iff)


text \<open>
  The claim as stated fails on the example: with the element of view 0 created,
  \<open>destroyElement\<close> and \<open>destroy\<close> of view 0 call \<open>willDestroyElement\<close> on view 0
  before they call it on its child views 1 and 2.
\<close>

theorem willDestroyElement_order_counterexample:
  "trace_of (destroyElement (Suc (Suc 0)) (Suc (Suc 0)) 0 example_rendered) =
     Ok [DidCreateElement 0, DidCreateElement 1, DidCreateElement 2,
         WillDestroyElement 0, WillDestroyElement 1, WillDestroyElement 2] \<and>
   trace_of (destroy (Suc (Suc 0)) (Suc (Suc 0)) 0 example_rendered) =
     Ok [DidCreateElement 0, DidCreateElement 1, DidCreateElement 2,
         WillDestroyElement 0, WillDestroyElement 1, WillDestroyElement 2] \<and>
   kids example_rendered 0 = [VView 1, VView 2]"
  by (simp add: example_defs eval_defs kids_def)










text \<open>
  C6 on the example. \<open>createElement\<close> on view 0 registers one observer for each of the
  three bindings of view 2, the observer of the binding \<open>isDone:done\<close> on the path
  \<open>isDone:done\<close>, and the element of view 2 has the classes \<open>is-urgent\<close>, \<open>done\<close> and
  \<open>high\<close>. When \<open>isDone\<close> is then set to \<open>false\<close>, the class computed for the binding
  is \<open>null\<close>, and yet the element keeps the class \<open>done\<close>: setting the key \<open>isDone\<close>
  does not call the observer. For the binding \<open>isUrgent\<close>, written without a class name,
  the class \<open>is-urgent\<close> is removed.
\<close>

theorem colon_binding_not_synced:
  "observers_of (createElement (Suc 0) (Suc (Suc 0)) 0 example_tree) = Ok example_observers \<and>
   map ob_path example_observers = [''isUrgent'', ''isDone:done'', ''priority''] \<and>
   element_of 0 (createElement (Suc 0) (Suc (Suc 0)) 0 example_tree) =
     Ok (Some example_element) \<and>
   class_of 2 ''isDone:done''
     (and_then (createElement (Suc 0) (Suc (Suc 0)) 0 example_tree)
        (set_property (Suc (Suc 0)) 2 ''isDone'' (VBool False))) = Ok VNull \<and>
   element_of 0
     (and_then (createElement (Suc 0) (Suc (Suc 0)) 0 example_tree)
        (set_property (Suc (Suc 0)) 2 ''isDone'' (VBool False))) =
     Ok (Some example_element) \<and>
   element_of 0
     (and_then (createElement (Suc 0) (Suc (Suc 0)) 0 example_tree)
        (set_property (Suc (Suc 0)) 2 ''isUrgent'' (VBool False))) =
     Ok (Some (Node ''ul'' (Some ''sc0'') [''sc-view''] [] []
       [Node ''div'' (Some ''sc1'') [''sc-view''] [] [] [],
        Node ''span'' (Some ''sc2'') [''sc-view'', ''done'', ''high''] [] [] []])) \<and>
   example_element =
     Node ''ul'' (Some ''sc0'') [''sc-view''] [] []
       [Node ''div'' (Some ''sc1'') [''sc-view''] [] [] [],
        Node ''span'' (Some ''sc2'') [''sc-view'', ''is-urgent'', ''done'', ''high''] [] [] []]"
  unfolding example_createElement by (simp add: example_defs eval_defs)

end
